theory Spec2Isabelle
  imports Main "HOL-Library.AList"
begin

section \<open>JavaScript values and strings\<close>

text \<open>
  The methods of \<open>class Subdomain\<close> in \<open>src/index.js\<close> receive route parameters and
  query parameters of the HTTP API: strings, or nothing at all. A value is therefore
  \<open>undefined\<close>, \<open>null\<close> or a string. A string is a list of code units; the model has the
  code units U+0000 to U+00FF (the type \<open>char\<close>).
\<close>

datatype jsval = JUndefined | JNull | JString string

text \<open>\<open>(x || '')\<close>: the falsy values (undefined, null, the empty string) give \<open>''\<close>.\<close>

fun or_empty :: "jsval \<Rightarrow> string" where
  "or_empty JUndefined = []"
| "or_empty JNull = []"
| "or_empty (JString s) = s"

text \<open>\<open>String(x)\<close>, and \<open>x + '...'\<close> with a string on the right.\<close>

fun String :: "jsval \<Rightarrow> string" where
  "String JUndefined = ''undefined''"
| "String JNull = ''null''"
| "String (JString s) = s"

text \<open>
  \<open>toLowerCase\<close> maps each code unit on its own: A to Z, and in the Latin-1 block
  U+00C0 to U+00DE except the multiplication sign U+00D7, move up by 32.
\<close>

definition lower_char :: "char \<Rightarrow> char" where
  "lower_char c =
     (let n = (of_char c :: nat)
      in if (65 \<le> n \<and> n \<le> 90) \<or> (192 \<le> n \<and> n \<le> 222 \<and> n \<noteq> 215)
         then char_of (n + 32) else c)"

definition toLowerCase :: "string \<Rightarrow> string" where
  "toLowerCase s = map lower_char s"

text \<open>
  \<open>toUpperCase\<close> is only ever applied to a type that passed the whitelist and to the
  type of a provider record: a to z move down by 32, and so do U+00E0 to U+00FE except
  the division sign U+00F7. (The three code units whose upper case leaves the block,
  U+00B5, U+00DF and U+00FF, are left as they are.)
\<close>

definition upper_char :: "char \<Rightarrow> char" where
  "upper_char c =
     (let n = (of_char c :: nat)
      in if (97 \<le> n \<and> n \<le> 122) \<or> (224 \<le> n \<and> n \<le> 254 \<and> n \<noteq> 247)
         then char_of (n - 32) else c)"

definition toUpperCase :: "string \<Rightarrow> string" where
  "toUpperCase s = map upper_char s"

text \<open>
  \<open>s.split(sep)\<close> for a separator of one code unit: never empty, \<open>''.split('.')\<close> is
  \<open>['']\<close> and \<open>'a.'.split('.')\<close> is \<open>['a', '']\<close>.
\<close>

fun split :: "char \<Rightarrow> string \<Rightarrow> string list" where
  "split sep [] = [[]]"
| "split sep (c # cs) =
     (if c = sep then [] # split sep cs
      else (case split sep cs of
              [] \<Rightarrow> [[c]]
            | w # ws \<Rightarrow> (c # w) # ws))"

text \<open>\<open>xs.pop()\<close> returns the last element, \<open>undefined\<close> on an empty array.\<close>

definition pop :: "string list \<Rightarrow> jsval" where
  "pop xs = (if xs = [] then JUndefined else JString (last xs))"

text \<open>\<open>xs.includes(v)\<close> on an array of strings: only a string can be found.\<close>

fun includes_elem :: "string list \<Rightarrow> jsval \<Rightarrow> bool" where
  "includes_elem xs (JString s) = (s \<in> set xs)"
| "includes_elem xs JUndefined = False"
| "includes_elem xs JNull = False"

text \<open>\<open>s.includes('.')\<close> on a string, for a needle of one code unit.\<close>

definition includes_char :: "string \<Rightarrow> char \<Rightarrow> bool" where
  "includes_char s c = (c \<in> set s)"

text \<open>\<open>xs.join(sep)\<close>.\<close>

fun join :: "string \<Rightarrow> string list \<Rightarrow> string" where
  "join sep [] = []"
| "join sep [x] = x"
| "join sep (x # y # ys) = x @ sep @ join sep (y # ys)"

text \<open>
  \<open>s.trim()\<close> drops white space and line terminators at both ends; in the model's
  code units these are U+0009 to U+000D, the space and U+00A0.
\<close>

definition is_space :: "char \<Rightarrow> bool" where
  "is_space c = (let n = (of_char c :: nat) in (9 \<le> n \<and> n \<le> 13) \<or> n = 32 \<or> n = 160)"

definition trim :: "string \<Rightarrow> string" where
  "trim s = rev (dropWhile is_space (rev (dropWhile is_space s)))"

text \<open>\<open>s.endsWith(t)\<close> and \<open>s.slice(0, -n)\<close> for \<open>n > 0\<close>.\<close>

definition endsWith :: "string \<Rightarrow> string \<Rightarrow> bool" where
  "endsWith s t = (length t \<le> length s \<and> drop (length s - length t) s = t)"

definition slice_end :: "string \<Rightarrow> nat \<Rightarrow> string" where
  "slice_end s n = take (length s - n) s"

section \<open>Constants and errors\<close>

definition DOMAIN :: string where
  "DOMAIN = ''u-tokyo.app.''"

definition TYPE_WHITELIST :: "string list" where
  "TYPE_WHITELIST =
     [''a'', ''cname'', ''aaaa'', ''caa'', ''txt'', ''mx'', ''ns'', ''spf'', ''srv'', ''sshfp'']"

definition DEFAULT_TTL :: nat where
  "DEFAULT_TTL = 300"

text \<open>
  One constructor for each \<open>throw\<close> of the class, named as the specification names the
  error, and two for the document store: its rejection of an \<open>update\<close> of a document
  that does not exist, and its client's refusal to write a document with a field that
  is \<open>undefined\<close>.
  \<^item> \<open>TenantNotFound\<close>: \<open>Error('No such subdomain')\<close>
  \<^item> \<open>OwnershipMismatch\<close>: \<open>Error('Subdomain mismatch')\<close>
  \<^item> \<open>InvalidType\<close>: \<open>Error('Invalid type')\<close>
  \<^item> \<open>InvalidArgument\<close>: \<open>TypeError('Not a top-level subdomain')\<close>
  \<^item> \<open>InvalidName\<close>: \<open>Error('Invalid name')\<close>
  \<^item> \<open>AlreadyExists\<close>: \<open>Error('Domain already exists')\<close>
  \<^item> \<open>StoreNotFound\<close>: the store's \<open>NOT_FOUND\<close>
  \<^item> \<open>StoreInvalidData\<close>: the store client's \<open>Cannot use "undefined" as a Firestore value\<close>
\<close>

datatype error =
    TenantNotFound
  | OwnershipMismatch
  | InvalidType
  | InvalidArgument
  | InvalidName
  | AlreadyExists
  | StoreNotFound
  | StoreInvalidData

section \<open>Record Validator\<close>

text \<open>
  \<open>((aType || '') + '').toLowerCase()\<close>: appending \<open>''\<close> leaves a string as it is.
\<close>

definition validateType :: "jsval \<Rightarrow> error + string" where
  "validateType aType =
     (let type = toLowerCase (or_empty aType)
      in if type \<notin> set TYPE_WHITELIST then Inl InvalidType else Inr type)"

section \<open>The document store and the DNS provider\<close>

text \<open>
  The collection \<open>domains\<close> of the document store holds one document per tenant,
  \<open>{created_by, created_date, subdomains}\<close>, under the tenant's identifier. The store
  assigns \<open>created_date\<close> (a server time stamp); no function reads it back.
\<close>

record domain_doc =
  created_by :: jsval
  created_date :: nat
  subdomains :: "string list"

text \<open>
  A record set of the managed zone, as the provider's client library holds it:
  \<open>{name, type, ttl, data}\<close>, the name fully qualified and the type in upper case.
\<close>

record dns_record =
  name :: string
  type :: string
  ttl :: nat
  data :: "string list"

text \<open>The argument of \<open>zone.createChange\<close>.\<close>

record change =
  add :: "dns_record list"
  delete :: "dns_record list"

text \<open>
  The write requests the class sends to the store: \<open>docRef.set(doc)\<close>, and
  \<open>docRef.update({subdomains: v})\<close> with \<open>v\<close> one of \<open>FieldValue.arrayUnion(x)\<close> and
  \<open>FieldValue.arrayRemove(x)\<close>.
\<close>

datatype field_value = ArrayUnion string | ArrayRemove string

datatype store_write = DocSet string domain_doc | DocUpdate string field_value

text \<open>
  Everything a method of the class reads or writes: the collection \<open>domains\<close> (an
  association list, looked up with \<open>map_of\<close>) and the write requests the store has
  received so far, in order; the record sets of the zone and the change requests the
  zone has received so far, in order; and the field \<open>this._subdomains\<close> of the
  \<open>Subdomain\<close> object the method runs on (\<open>None\<close> while the field is not set).
  The object's other field, \<open>this._docRef\<close>, never changes after the constructor: the
  methods take the document identifier as their first argument \<open>ref\<close>.

  A method that calls another one without \<open>await\<close> returns while that call is still
  running. The field \<open>pending\<close> holds the calls of \<open>removeSubdomain\<close> left running in
  this way, each with the document identifier of its object and its argument: their
  writes have not reached the store yet.

  A method returns its result, or the error it throws, and the state it leaves behind:
  what was written before a \<open>throw\<close> stays written.
\<close>

record state =
  domains :: "(string \<times> domain_doc) list"
  writes :: "store_write list"
  zone :: "dns_record list"
  changes :: "change list"
  this_subdomains :: "string list option"
  pending :: "(string \<times> jsval) list"

subsection \<open>Document store\<close>

text \<open>\<open>docRef.get()\<close>: the document, \<open>None\<close> when \<open>doc.exists\<close> is false.\<close>

definition doc_get :: "string \<Rightarrow> state \<Rightarrow> domain_doc option" where
  "doc_get ref st = map_of (domains st) ref"

text \<open>
  \<open>docRef.set(d)\<close> creates the document or replaces it. The store is opened without
  \<open>ignoreUndefinedProperties\<close>, so its client refuses a document one of whose fields is
  \<open>undefined\<close> and sends nothing; of the fields \<open>createSubdomain\<close> writes only
  \<open>created_by\<close> can be.
\<close>

definition doc_set :: "string \<Rightarrow> domain_doc \<Rightarrow> state \<Rightarrow> (error + unit) \<times> state" where
  "doc_set ref d st =
     (if created_by d = JUndefined then (Inl StoreInvalidData, st)
      else (Inr (),
            st\<lparr>domains := AList.update ref d (domains st),
               writes := writes st @ [DocSet ref d]\<rparr>))"

text \<open>
  \<open>FieldValue.arrayUnion(x)\<close> appends \<open>x\<close> unless the array holds it;
  \<open>FieldValue.arrayRemove(x)\<close> removes every occurrence of \<open>x\<close>.
\<close>

fun apply_field_value :: "field_value \<Rightarrow> string list \<Rightarrow> string list" where
  "apply_field_value (ArrayUnion x) xs = (if x \<in> set xs then xs else xs @ [x])"
| "apply_field_value (ArrayRemove x) xs = removeAll x xs"

text \<open>
  \<open>docRef.update({subdomains: v})\<close>: the store rejects the update of a document that
  does not exist, and applies \<open>v\<close> to the field of one that does.
\<close>

definition doc_update :: "string \<Rightarrow> field_value \<Rightarrow> state \<Rightarrow> (error + unit) \<times> state" where
  "doc_update ref v st =
     (let st1 = st\<lparr>writes := writes st @ [DocUpdate ref v]\<rparr>
      in case doc_get ref st of
           None \<Rightarrow> (Inl StoreNotFound, st1)
         | Some d \<Rightarrow>
             (Inr (),
              st1\<lparr>domains :=
                    AList.update ref (d\<lparr>subdomains := apply_field_value v (subdomains d)\<rparr>)
                      (domains st)\<rparr>))"

text \<open>
  \<open>domainsRef.where('subdomains', 'array-contains', name).get()\<close>: the identifiers of
  the documents whose array holds \<open>name\<close>.
\<close>

definition where_array_contains :: "string \<Rightarrow> state \<Rightarrow> string list" where
  "where_array_contains nm st =
     filter (\<lambda>i. case doc_get i st of None \<Rightarrow> False | Some d \<Rightarrow> nm \<in> set (subdomains d))
       (remdups (map fst (domains st)))"

subsection \<open>DNS provider\<close>

text \<open>
  \<open>zone.record(type, {name, data, ttl})\<close> builds a record of the client library, which
  keeps the type in upper case.
\<close>

definition zone_record :: "string \<Rightarrow> string \<Rightarrow> string list \<Rightarrow> nat \<Rightarrow> dns_record" where
  "zone_record ty nm ds t = \<lparr>name = nm, type = toUpperCase ty, ttl = t, data = ds\<rparr>"

text \<open>
  \<open>zone.getRecords({name, type})\<close>: the record sets of that name, and of that type when
  a type is given; names and types are compared as strings, code unit by code unit.
  \<open>zone.createChange({add, delete})\<close> takes the deleted record sets out of the zone and
  puts the added ones in; \<open>zone.deleteRecords(records)\<close> is a change with deletions
  only. The zone is taken to accept every change it is sent, and to answer every query.
\<close>

definition zone_getRecords :: "string \<Rightarrow> string option \<Rightarrow> state \<Rightarrow> dns_record list" where
  "zone_getRecords nm ty st =
     filter (\<lambda>r. name r = nm \<and> (case ty of None \<Rightarrow> True | Some t \<Rightarrow> type r = t)) (zone st)"

definition zone_createChange :: "change \<Rightarrow> state \<Rightarrow> state" where
  "zone_createChange c st =
     st\<lparr>zone := filter (\<lambda>r. r \<notin> set (delete c)) (zone st) @ add c,
        changes := changes st @ [c]\<rparr>"

definition zone_deleteRecords :: "dns_record list \<Rightarrow> state \<Rightarrow> state" where
  "zone_deleteRecords rs st = zone_createChange \<lparr>add = [], delete = rs\<rparr> st"

section \<open>Ownership Store Adapter\<close>

definition getAllSubdomains :: "string \<Rightarrow> state \<Rightarrow> (error + string list) \<times> state" where
  "getAllSubdomains ref st =
     (case this_subdomains st of
        Some xs \<Rightarrow> (Inr xs, st)
      | None \<Rightarrow>
          (case doc_get ref st of
             None \<Rightarrow> (Inl TenantNotFound, st)
           | Some doc \<Rightarrow> (Inr (subdomains doc), st\<lparr>this_subdomains := Some (subdomains doc)\<rparr>)))"

definition getBaseSubdomains :: "string \<Rightarrow> state \<Rightarrow> (error + string list) \<times> state" where
  "getBaseSubdomains ref st =
     (case getAllSubdomains ref st of
        (Inl e, st1) \<Rightarrow> (Inl e, st1)
      | (Inr xs, st1) \<Rightarrow>
          (Inr (filter (\<lambda>subdomain. \<not> includes_char subdomain (CHR ''.'')) xs), st1))"

definition assertSubdomain :: "string \<Rightarrow> jsval \<Rightarrow> state \<Rightarrow> (error + string) \<times> state" where
  "assertSubdomain ref aSubdomain st =
     (let subdomain = toLowerCase (or_empty aSubdomain);
          baseSubdomain = pop (split (CHR ''.'') subdomain)
      in case getAllSubdomains ref st of
           (Inl e, st1) \<Rightarrow> (Inl e, st1)
         | (Inr xs, st1) \<Rightarrow>
             if \<not> includes_elem xs baseSubdomain then (Inl OwnershipMismatch, st1)
             else (Inr subdomain, st1))"

definition addSubdomain :: "string \<Rightarrow> jsval \<Rightarrow> state \<Rightarrow> (error + unit) \<times> state" where
  "addSubdomain ref aSubdomain st =
     (case assertSubdomain ref aSubdomain st of
        (Inl e, st1) \<Rightarrow> (Inl e, st1)
      | (Inr subdomain, st1) \<Rightarrow>
          (case getAllSubdomains ref st1 of
             (Inl e, st2) \<Rightarrow> (Inl e, st2)
           | (Inr xs, st2) \<Rightarrow>
               if \<not> includes_elem xs (JString subdomain) then
                 (case doc_update ref (ArrayUnion subdomain) st2 of
                    (Inl e, st3) \<Rightarrow> (Inl e, st3)
                  | (Inr u, st3) \<Rightarrow> (Inr (), st3\<lparr>this_subdomains := None\<rparr>))
               else (Inr (), st2)))"

text \<open>
  \<open>subdomain != baseSubdomain\<close> compares a string with what \<open>pop\<close> returned: two
  strings by their code units, a string and \<open>undefined\<close> as different.
\<close>

definition removeSubdomain :: "string \<Rightarrow> jsval \<Rightarrow> state \<Rightarrow> (error + unit) \<times> state" where
  "removeSubdomain ref aSubdomain st =
     (let subdomain = toLowerCase (or_empty aSubdomain);
          baseSubdomain = pop (split (CHR ''.'') subdomain)
      in if JString subdomain \<noteq> baseSubdomain then
           (case doc_update ref (ArrayRemove subdomain) st of
              (Inl e, st1) \<Rightarrow> (Inl e, st1)
            | (Inr u, st1) \<Rightarrow> (Inr (), st1\<lparr>this_subdomains := None\<rparr>))
         else (Inr (), st))"

section \<open>Zone Reconciler\<close>

text \<open>
  \<open>createRecord\<close>: the value is split at line feeds, each line trimmed and the empty
  ones dropped; the name is put in lower case and qualified with the parent domain.
\<close>

definition createRecord :: "jsval \<Rightarrow> jsval \<Rightarrow> jsval \<Rightarrow> error + dns_record" where
  "createRecord aType aName aValue =
     (let val = or_empty aValue
      in case validateType aType of
           Inl e \<Rightarrow> Inl e
         | Inr ty \<Rightarrow>
             (let nm = toLowerCase (or_empty aName);
                  quarifiedName = nm @ ''.'' @ DOMAIN
              in Inr (zone_record ty quarifiedName
                        (filter (\<lambda>v. [] \<noteq> v) (map trim (split (CHR 0x0A) val)))
                        DEFAULT_TTL)))"

text \<open>The data \<open>createRecord\<close> builds from a value: its trimmed, non-empty lines.\<close>

definition lines_of :: "string \<Rightarrow> string list" where
  "lines_of v = filter (\<lambda>x. [] \<noteq> x) (map trim (split (CHR 0x0A) v))"

definition getRecords :: "string \<Rightarrow> state \<Rightarrow> dns_record list" where
  "getRecords subdomain st = zone_getRecords (subdomain @ ''.'' @ DOMAIN) None st"

text \<open>\<open>getRecordsByType\<close> qualifies the name as it was passed, not in lower case.\<close>

definition getRecordsByType :: "jsval \<Rightarrow> jsval \<Rightarrow> state \<Rightarrow> error + dns_record list" where
  "getRecordsByType aType aName st =
     (case validateType aType of
        Inl e \<Rightarrow> Inl e
      | Inr ty \<Rightarrow>
          Inr (zone_getRecords (String aName @ ''.'' @ DOMAIN) (Some (toUpperCase ty)) st))"

text \<open>
  What the read methods return for one provider record: the body of the loop of
  \<open>getRecordsByTypeFormatted\<close>, which \<open>getAllRecords\<close> repeats.
\<close>

record formatted =
  name :: string
  data :: string
  type :: string

definition formatRecord :: "dns_record \<Rightarrow> formatted" where
  "formatRecord r =
     (let suffix = ''.'' @ DOMAIN;
          plainName = (if endsWith (dns_record.name r) suffix
                       then slice_end (dns_record.name r) (length suffix)
                       else dns_record.name r)
      in \<lparr>name = toLowerCase plainName,
          data = join [CHR 0x0A] (dns_record.data r),
          type = toUpperCase (dns_record.type r)\<rparr>)"

definition getRecordsByTypeFormatted ::
  "jsval \<Rightarrow> jsval \<Rightarrow> state \<Rightarrow> error + formatted list" where
  "getRecordsByTypeFormatted aType aName st =
     (case getRecordsByType aType aName st of
        Inl e \<Rightarrow> Inl e
      | Inr records \<Rightarrow> Inr (map formatRecord records))"

definition getAllRecords :: "string \<Rightarrow> state \<Rightarrow> (error + formatted list) \<times> state" where
  "getAllRecords ref st =
     (case getAllSubdomains ref st of
        (Inl e, st1) \<Rightarrow> (Inl e, st1)
      | (Inr xs, st1) \<Rightarrow>
          (Inr (concat (map (\<lambda>subdomain. map formatRecord (getRecords subdomain st1)) xs)), st1))"

definition updateRecord ::
  "string \<Rightarrow> jsval \<Rightarrow> jsval \<Rightarrow> jsval \<Rightarrow> state \<Rightarrow> (error + unit) \<times> state" where
  "updateRecord ref aType aName aNewValue st =
     (case addSubdomain ref aName st of
        (Inl e, st1) \<Rightarrow> (Inl e, st1)
      | (Inr u, st1) \<Rightarrow>
          (case getRecordsByType aType aName st1 of
             Inl e \<Rightarrow> (Inl e, st1)
           | Inr oldRecords \<Rightarrow>
               (case createRecord aType aName aNewValue of
                  Inl e \<Rightarrow> (Inl e, st1)
                | Inr newRecord \<Rightarrow>
                    (Inr (), zone_createChange \<lparr>add = [newRecord], delete = oldRecords\<rparr> st1))))"

text \<open>
  \<open>deleteRecord\<close> calls \<open>this.removeSubdomain(subdomain)\<close> without \<open>await\<close>: it returns
  with that call still running, and does not throw if the call is rejected later. The
  call joins \<open>pending\<close>; the tracked set and \<open>this._subdomains\<close> are as they were.
\<close>

definition deleteRecord :: "string \<Rightarrow> jsval \<Rightarrow> jsval \<Rightarrow> state \<Rightarrow> (error + unit) \<times> state" where
  "deleteRecord ref aType aName st =
     (case assertSubdomain ref aName st of
        (Inl e, st1) \<Rightarrow> (Inl e, st1)
      | (Inr subdomain, st1) \<Rightarrow>
          (case getRecordsByType aType aName st1 of
             Inl e \<Rightarrow> (Inl e, st1)
           | Inr oldRecords \<Rightarrow>
               (let st2 = zone_deleteRecords oldRecords st1
                in if length (split (CHR ''.'') subdomain) < 2 then (Inr (), st2)
                   else (let leftRecords = getRecords subdomain st2
                         in if length leftRecords < 1
                            then (Inr (), st2\<lparr>pending := pending st2 @ [(ref, JString subdomain)]\<rparr>)
                            else (Inr (), st2)))))"

text \<open>
  The state once every call left running has finished, in the order the calls were
  made: each runs as \<open>removeSubdomain\<close> does, and its rejection reaches no caller.
\<close>

definition settle :: "state \<Rightarrow> state" where
  "settle st =
     fold (\<lambda>(ref, aSubdomain) s. snd (removeSubdomain ref aSubdomain s)) (pending st)
       (st\<lparr>pending := []\<rparr>)"

section \<open>Tenant Provisioner\<close>

text \<open>
  \<open>name.match(/^[a-z0-9]+(-[a-z0-9]+)*$/)\<close> as the automaton of the pattern. The flag
  says whether the code unit before was one of \<open>[a-z0-9]\<close>: only then may a hyphen
  follow, and only then may the string end.
\<close>

definition is_alnum :: "char \<Rightarrow> bool" where
  "is_alnum c = (let n = (of_char c :: nat) in (97 \<le> n \<and> n \<le> 122) \<or> (48 \<le> n \<and> n \<le> 57))"

fun match_from :: "bool \<Rightarrow> string \<Rightarrow> bool" where
  "match_from after_alnum [] = after_alnum"
| "match_from after_alnum (c # cs) =
     (if is_alnum c then match_from True cs
      else if c = CHR ''-'' \<and> after_alnum then match_from False cs
      else False)"

definition match_label :: "string \<Rightarrow> bool" where
  "match_label s = match_from False s"

definition domainExists :: "jsval \<Rightarrow> state \<Rightarrow> error + bool" where
  "domainExists aName st =
     (let nm = toLowerCase (String aName)
      in if includes_char nm (CHR ''.'') then Inl InvalidArgument
         else Inr (where_array_contains nm st \<noteq> []))"

text \<open>
  \<open>createSubdomain\<close> draws the new identifier with \<open>uuidv4()\<close> and the store stamps the
  document with its time: both are arguments here, \<open>uuid\<close> and \<open>now\<close>.
\<close>

definition createSubdomain ::
  "string \<Rightarrow> nat \<Rightarrow> jsval \<Rightarrow> jsval \<Rightarrow> state \<Rightarrow> (error + string) \<times> state" where
  "createSubdomain uuid now aName aOwner st =
     (let nm = toLowerCase (String aName)
      in if \<not> match_label nm then (Inl InvalidName, st)
         else (case domainExists (JString nm) st of
                 Inl e \<Rightarrow> (Inl e, st)
               | Inr exists \<Rightarrow>
                   if exists then (Inl AlreadyExists, st)
                   else (case doc_set uuid \<lparr>created_by = aOwner, created_date = now,
                                              subdomains = [nm]\<rparr> st of
                           (Inl e, st1) \<Rightarrow> (Inl e, st1)
                         | (Inr u, st1) \<Rightarrow> (Inr uuid, st1))))"

section \<open>Tenants and their invariants\<close>

text \<open>
  The tracked subdomain set of the tenant \<open>ref\<close>: the array of its document, \<open>None\<close>
  when there is no such document.
\<close>

definition tracked :: "string \<Rightarrow> state \<Rightarrow> string list option" where
  "tracked ref st = map_option subdomains (doc_get ref st)"

text \<open>
  A \<open>Subdomain\<close> object is coherent with the store when its field \<open>_subdomains\<close> is not
  set, as it is right after the constructor, or holds the array of its document.
\<close>

definition coherent :: "string \<Rightarrow> state \<Rightarrow> bool" where
  "coherent ref st =
     (case this_subdomains st of
        None \<Rightarrow> True
      | Some xs \<Rightarrow> tracked ref st = Some xs)"

text \<open>
  The invariant of a tracked set: each element is a bare label, with no dot, or a
  dotted label whose segment after the last dot is a bare label of the same set. The
  store satisfies it when the array of every document does.
\<close>

definition tenant_inv :: "string list \<Rightarrow> bool" where
  "tenant_inv xs =
     list_all (\<lambda>e. \<not> includes_char e (CHR ''.'') \<or>
                   (let b = last (split (CHR ''.'') e)
                    in \<not> includes_char b (CHR ''.'') \<and> b \<in> set xs)) xs"

definition store_inv :: "state \<Rightarrow> bool" where
  "store_inv st =
     list_all (\<lambda>i. case doc_get i st of None \<Rightarrow> True | Some d \<Rightarrow> tenant_inv (subdomains d))
       (map fst (domains st))"

text \<open>
  Tenants and states to run the methods on: a tenant that owns \<open>base\<close> and has no
  records, and the same tenant with the leaf \<open>www.base\<close> and its one record.
\<close>

definition example_doc :: domain_doc where
  "example_doc = \<lparr>created_by = JString ''0123456789'', created_date = 0, subdomains = [''base'']\<rparr>"

definition example_state :: state where
  "example_state =
     \<lparr>domains = [(''tenant'', example_doc)], writes = [], zone = [], changes = [],
      this_subdomains = None, pending = []\<rparr>"

definition example_leaf_doc :: domain_doc where
  "example_leaf_doc =
     \<lparr>created_by = JString ''0123456789'', created_date = 0,
      subdomains = [''base'', ''www.base'']\<rparr>"

definition example_record :: dns_record where
  "example_record =
     \<lparr>dns_record.name = ''www.base.u-tokyo.app.'', type = ''A'', ttl = 300,
      data = [''1.2.3.4'']\<rparr>"

definition example_leaf_state :: state where
  "example_leaf_state =
     \<lparr>domains = [(''tenant'', example_leaf_doc)], writes = [], zone = [example_record],
      changes = [], this_subdomains = None, pending = []\<rparr>"

section \<open>Properties of the string functions\<close>

lemma of_char_lower_char:
  "(of_char (lower_char c) :: nat) =
     (let n = of_char c
      in if (65 \<le> n \<and> n \<le> 90) \<or> (192 \<le> n \<and> n \<le> 222 \<and> n \<noteq> 215) then n + 32 else n)"
  by (simp add: lower_char_def Let_def)

lemma lower_char_dot: "lower_char c = CHR ''.'' \<longleftrightarrow> c = CHR ''.''"
proof -
  have "lower_char c = CHR ''.'' \<longleftrightarrow> (of_char (lower_char c) :: nat) = of_char (CHR ''.'')"
    by (simp only: of_char_eq_iff)
  also have "\<dots> \<longleftrightarrow> (of_char c :: nat) = of_char (CHR ''.'')"
    by (auto simp: of_char_lower_char Let_def)
  also have "\<dots> \<longleftrightarrow> c = CHR ''.''"
    by (simp only: of_char_eq_iff)
  finally show ?thesis .
qed

lemma toLowerCase_dot: "CHR ''.'' \<in> set (toLowerCase s) \<longleftrightarrow> CHR ''.'' \<in> set s"
proof -
  have "CHR ''.'' \<in> set (toLowerCase s) \<longleftrightarrow> (\<exists>c \<in> set s. lower_char c = CHR ''.'')"
    unfolding toLowerCase_def set_map image_iff by metis
  then show ?thesis by (simp add: lower_char_dot)
qed

lemma lower_char_alnum: "is_alnum c \<Longrightarrow> lower_char c = c"
  by (auto simp: is_alnum_def lower_char_def Let_def)

lemma lower_char_hyphen: "lower_char (CHR ''-'') = CHR ''-''"
  by (simp add: lower_char_def)

lemma is_alnum_not_dot: "\<not> is_alnum (CHR ''.'')"
  by (simp add: is_alnum_def)

lemma match_from_chars: "match_from b s \<Longrightarrow> c \<in> set s \<Longrightarrow> is_alnum c \<or> c = CHR ''-''"
  by (induction s arbitrary: b) (auto split: if_splits)

lemma match_label_lower: "match_label s \<Longrightarrow> toLowerCase s = s"
  unfolding match_label_def toLowerCase_def
  by (rule map_idI) (auto dest!: match_from_chars simp: lower_char_alnum lower_char_hyphen)

lemma match_label_no_dot: "match_label s \<Longrightarrow> CHR ''.'' \<notin> set s"
  unfolding match_label_def
  by (auto dest!: match_from_chars simp: is_alnum_not_dot)

lemma split_not_Nil: "split sep s \<noteq> []"
  by (induction s) (auto split: list.splits)

lemma split_no_sep: "sep \<notin> set s \<Longrightarrow> split sep s = [s]"
  by (induction s) auto

lemma split_parts_no_sep: "w \<in> set (split sep s) \<Longrightarrow> sep \<notin> set w"
  by (induction s arbitrary: w) (auto split: if_splits list.splits)

lemma last_split_no_sep: "sep \<notin> set (last (split sep s))"
  using split_parts_no_sep [of "last (split sep s)" sep s] split_not_Nil [of sep s]
  by simp

lemma last_split_eq: "last (split sep s) = s \<longleftrightarrow> sep \<notin> set s"
  using last_split_no_sep [of sep s] by (auto simp: split_no_sep)

lemma length_split: "length (split sep s) < 2 \<longleftrightarrow> sep \<notin> set s"
proof (induction s)
  case Nil
  then show ?case by simp
next
  case (Cons c cs)
  have "split sep cs \<noteq> []" by (rule split_not_Nil)
  then obtain w ws where "split sep cs = w # ws" by (cases "split sep cs") auto
  with Cons show ?case by auto
qed

lemma pop_split: "pop (split sep s) = JString (last (split sep s))"
  by (simp add: pop_def split_not_Nil)

lemma lower_char_idem: "lower_char (lower_char c) = lower_char c"
proof -
  have "(of_char (lower_char (lower_char c)) :: nat) = of_char (lower_char c)"
    by (simp add: of_char_lower_char Let_def)
  then show ?thesis by (simp only: of_char_eq_iff)
qed

lemma toLowerCase_idem: "toLowerCase (toLowerCase s) = toLowerCase s"
  by (simp add: toLowerCase_def lower_char_idem)

lemma split_append: "c \<notin> set x \<Longrightarrow> split c (x @ c # ys) = x # split c ys"
  by (induction x) auto

lemma split_join:
  "xs \<noteq> [] \<Longrightarrow> (\<forall>x \<in> set xs. c \<notin> set x) \<Longrightarrow> split c (join [c] xs) = xs"
proof (induction "[c]" xs rule: join.induct)
  case 1
  then show ?case by simp
next
  case (2 x)
  then show ?case by (simp add: split_no_sep)
next
  case (3 x y ys)
  then show ?case by (simp add: split_append)
qed

lemma dropWhile_rev_dropWhile:
  "dropWhile P (rev (dropWhile P (rev (dropWhile P s)))) = rev (dropWhile P (rev (dropWhile P s)))"
proof -
  define u where "u = dropWhile P s"
  define w where "w = dropWhile P (rev u)"
  have "dropWhile P (rev w) = rev w"
  proof (cases "w = []")
    case True
    then show ?thesis by simp
  next
    case False
    have "rev u = takeWhile P (rev u) @ w" by (simp add: w_def)
    then have "last (rev u) = last w" using False by (metis last_appendR)
    moreover have "u \<noteq> []" using False by (auto simp: w_def)
    ultimately have "last w = hd u" by (simp add: last_rev)
    moreover have "\<not> P (hd u)" using \<open>u \<noteq> []\<close> unfolding u_def by (rule hd_dropWhile)
    ultimately have "\<not> P (hd (rev w))" using False by (simp add: hd_rev)
    then show ?thesis by (simp add: dropWhile_eq_self_iff)
  qed
  then show ?thesis unfolding w_def u_def .
qed

lemma trim_idem: "trim (trim s) = trim s"
  by (simp add: trim_def dropWhile_rev_dropWhile)

lemma set_trim: "set (trim s) \<subseteq> set s"
  by (auto simp: trim_def dest!: set_dropWhileD)

lemma lines_of_elem:
  assumes "x \<in> set (lines_of v)"
  shows "x \<noteq> []" and "CHR 0x0A \<notin> set x" and "trim x = x"
proof -
  from assms obtain y where y: "y \<in> set (split (CHR 0x0A) v)" and x: "x = trim y" and "x \<noteq> []"
    by (auto simp: lines_of_def)
  then show "x \<noteq> []" by simp
  show "CHR 0x0A \<notin> set x" using split_parts_no_sep [OF y] set_trim [of y] x by auto
  show "trim x = x" by (simp add: x trim_idem)
qed

lemma lines_of_join: "lines_of (join [CHR 0x0A] (lines_of v)) = lines_of v"
proof (cases "lines_of v = []")
  case True
  then show ?thesis by (simp add: lines_of_def trim_def)
next
  case False
  have "split (CHR 0x0A) (join [CHR 0x0A] (lines_of v)) = lines_of v"
    using False lines_of_elem(2) by (intro split_join) auto
  moreover have "map trim (lines_of v) = lines_of v"
    by (rule map_idI) (rule lines_of_elem(3))
  moreover have "filter (\<lambda>x. [] \<noteq> x) (lines_of v) = lines_of v"
    using lines_of_elem(1) by (auto simp: filter_id_conv)
  ultimately show ?thesis by (simp add: lines_of_def [of "join [CHR 0x0A] (lines_of v)"])
qed


section \<open>Record Validator: the type whitelist\<close>

lemma validateType_TXT: "validateType (JString ''TXT'') = Inr ''txt''"
  by code_simp

lemma validateType_ptr: "validateType (JString ''ptr'') = Inl InvalidType"
  by code_simp

text \<open>
  Claim C7. For every input string, \<open>validateType\<close> puts it in lower case and returns
  the lower-case form exactly when that form is one of a, cname, aaaa, caa, txt, mx,
  ns, spf, srv, sshfp; otherwise it fails with \<open>InvalidType\<close>. So \<open>validateType("TXT")\<close>
  returns \<open>"txt"\<close> and \<open>validateType("ptr")\<close> fails with \<open>InvalidType\<close>.
\<close>

theorem validateType_whitelist:
  "validateType (JString s) =
     (if toLowerCase s \<in> {''a'', ''cname'', ''aaaa'', ''caa'', ''txt'', ''mx'', ''ns'', ''spf'',
                            ''srv'', ''sshfp''}
      then Inr (toLowerCase s) else Inl InvalidType)
   \<and> validateType (JString ''TXT'') = Inr ''txt''
   \<and> validateType (JString ''ptr'') = Inl InvalidType"
proof -
  have "validateType (JString s) =
     (if toLowerCase s \<in> {''a'', ''cname'', ''aaaa'', ''caa'', ''txt'', ''mx'', ''ns'', ''spf'',
                            ''srv'', ''sshfp''}
      then Inr (toLowerCase s) else Inl InvalidType)"
    by (simp add: validateType_def TYPE_WHITELIST_def)
  then show ?thesis using validateType_TXT validateType_ptr by simp
qed

section \<open>Ownership Store Adapter: the ownership check\<close>

lemma getAllSubdomains_coherent:
  assumes "doc_get ref st = Some doc" and "coherent ref st"
  shows "getAllSubdomains ref st =
           (Inr (subdomains doc), st\<lparr>this_subdomains := Some (subdomains doc)\<rparr>)"
  using assms
  by (auto simp: getAllSubdomains_def coherent_def tracked_def split: option.splits)

lemma assertSubdomain_coherent:
  assumes "doc_get ref st = Some doc" and "coherent ref st"
  shows "assertSubdomain ref v st =
           (if last (split (CHR ''.'') (toLowerCase (or_empty v))) \<in> set (subdomains doc)
            then Inr (toLowerCase (or_empty v)) else Inl OwnershipMismatch,
            st\<lparr>this_subdomains := Some (subdomains doc)\<rparr>)"
  by (simp add: assertSubdomain_def Let_def pop_split getAllSubdomains_coherent [OF assms])

lemma example_doc_get: "doc_get ''tenant'' example_state = Some example_doc"
  by (simp add: doc_get_def example_state_def)

lemma example_coherent: "coherent ''tenant'' example_state"
  by (simp add: coherent_def example_state_def)

text \<open>
  Claim C1. For every tenant whose document exists (and a \<open>Subdomain\<close> object coherent
  with it) and every name, \<open>assertSubdomain\<close> puts the name in lower case, takes the
  segment after its last dot as the base, and returns the lower-case name if and only
  if the base is in the tenant's tracked set; otherwise it fails with
  \<open>OwnershipMismatch\<close>.
\<close>

theorem assertSubdomain_ownership:
  assumes "doc_get ref st = Some doc" and "coherent ref st"
  shows "fst (assertSubdomain ref (JString nm) st) =
           (if last (split (CHR ''.'') (toLowerCase nm)) \<in> set (subdomains doc)
            then Inr (toLowerCase nm) else Inl OwnershipMismatch)"
  by (simp add: assertSubdomain_coherent [OF assms])

theorem assertSubdomain_ownership_witness:
  "doc_get ''tenant'' example_state = Some example_doc
   \<and> coherent ''tenant'' example_state
   \<and> fst (assertSubdomain ''tenant'' (JString ''Foo.base'') example_state) = Inr ''foo.base''
   \<and> fst (assertSubdomain ''tenant'' (JString ''foo.other'') example_state) = Inl OwnershipMismatch"
proof -
  have e1: "last (split (CHR ''.'') (toLowerCase ''Foo.base'')) = ''base''"
    and e2: "toLowerCase ''Foo.base'' = ''foo.base''"
    and e3: "last (split (CHR ''.'') (toLowerCase ''foo.other'')) = ''other''"
    by code_simp+
  show ?thesis
    using assertSubdomain_ownership [OF example_doc_get example_coherent, of "''Foo.base''"]
      assertSubdomain_ownership [OF example_doc_get example_coherent, of "''foo.other''"]
      example_doc_get example_coherent
    by (simp add: e1 e2 e3 example_doc_def)
qed

section \<open>Ownership Store Adapter: removing a subdomain\<close>

lemma doc_get_domains_update:
  "doc_get r (st\<lparr>domains := AList.update ref d (domains st1)\<rparr>) =
     (if r = ref then Some d else doc_get r st1)"
  by (simp add: doc_get_def update_conv')

lemma doc_get_writes [simp]: "doc_get r (st\<lparr>writes := ws\<rparr>) = doc_get r st"
  by (simp add: doc_get_def)

lemma doc_get_cache [simp]: "doc_get r (st\<lparr>this_subdomains := c\<rparr>) = doc_get r st"
  by (simp add: doc_get_def)

lemma doc_set_defined:
  "created_by d \<noteq> JUndefined \<Longrightarrow>
   doc_set ref d st =
     (Inr (), st\<lparr>domains := AList.update ref d (domains st),
                writes := writes st @ [DocSet ref d]\<rparr>)"
  by (simp add: doc_set_def)

lemma doc_set_undefined:
  "created_by d = JUndefined \<Longrightarrow> doc_set ref d st = (Inl StoreInvalidData, st)"
  by (simp add: doc_set_def)

lemma doc_update_Some:
  "doc_get ref st = Some d \<Longrightarrow>
   doc_update ref v st =
     (Inr (), st\<lparr>writes := writes st @ [DocUpdate ref v],
                domains := AList.update ref (d\<lparr>subdomains := apply_field_value v (subdomains d)\<rparr>)
                             (domains st)\<rparr>)"
  by (simp add: doc_update_def Let_def)

lemma doc_update_None:
  "doc_get ref st = None \<Longrightarrow>
   doc_update ref v st = (Inl StoreNotFound, st\<lparr>writes := writes st @ [DocUpdate ref v]\<rparr>)"
  by (simp add: doc_update_def Let_def)

lemma removeSubdomain_dotted:
  assumes "CHR ''.'' \<in> set (or_empty v)"
  shows "removeSubdomain ref v st =
           (case doc_update ref (ArrayRemove (toLowerCase (or_empty v))) st of
              (Inl e, st1) \<Rightarrow> (Inl e, st1)
            | (Inr u, st1) \<Rightarrow> (Inr (), st1\<lparr>this_subdomains := None\<rparr>))"
proof -
  have "last (split (CHR ''.'') (toLowerCase (or_empty v))) \<noteq> toLowerCase (or_empty v)"
    using assms by (simp add: last_split_eq toLowerCase_dot)
  then show ?thesis
    by (simp add: removeSubdomain_def Let_def pop_split eq_commute)
qed

lemma removeSubdomain_bare:
  assumes "CHR ''.'' \<notin> set (or_empty v)"
  shows "removeSubdomain ref v st = (Inr (), st)"
proof -
  have "last (split (CHR ''.'') (toLowerCase (or_empty v))) = toLowerCase (or_empty v)"
    using assms by (simp add: last_split_eq toLowerCase_dot)
  then show ?thesis
    by (simp add: removeSubdomain_def Let_def pop_split)
qed

lemma tracked_removeSubdomain_dotted:
  assumes "CHR ''.'' \<in> set (or_empty v)"
  shows "tracked r (snd (removeSubdomain ref v st)) =
           (if r = ref then map_option (removeAll (toLowerCase (or_empty v))) (tracked ref st)
            else tracked r st)"
proof (cases "doc_get ref st")
  case None
  then show ?thesis
    by (simp add: removeSubdomain_dotted [OF assms] doc_update_None tracked_def)
next
  case (Some d)
  then show ?thesis
    by (simp add: removeSubdomain_dotted [OF assms] doc_update_Some tracked_def
        doc_get_domains_update)
qed

lemma example_leaf_tracked:
  "tracked ''tenant'' example_leaf_state = Some [''base'', ''www.base'']"
  by (simp add: tracked_def doc_get_def example_leaf_state_def example_leaf_doc_def)

text \<open>
  Claim C8. For every tenant and every name, \<open>removeSubdomain\<close> puts the name in lower
  case and, when the name contains a dot (it is not itself a base subdomain), removes
  it from the tenant's tracked set; when the name is a bare base label it changes
  nothing at all.
\<close>

theorem removeSubdomain_tracked:
  "(CHR ''.'' \<in> set nm \<longrightarrow>
      tracked ref (snd (removeSubdomain ref (JString nm) st)) =
        map_option (removeAll (toLowerCase nm)) (tracked ref st))
   \<and> (CHR ''.'' \<notin> set nm \<longrightarrow> removeSubdomain ref (JString nm) st = (Inr (), st))"
  using tracked_removeSubdomain_dotted [of "JString nm" ref ref st]
    removeSubdomain_bare [of "JString nm" ref st]
  by simp

theorem removeSubdomain_tracked_witness:
  "CHR ''.'' \<in> set ''WWW.base''
   \<and> tracked ''tenant'' (snd (removeSubdomain ''tenant'' (JString ''WWW.base'') example_leaf_state))
       = Some [''base'']
   \<and> CHR ''.'' \<notin> set ''base''
   \<and> removeSubdomain ''tenant'' (JString ''base'') example_leaf_state
       = (Inr (), example_leaf_state)"
proof -
  have e: "toLowerCase ''WWW.base'' = ''www.base''" by code_simp
  show ?thesis
    using removeSubdomain_tracked [of "''WWW.base''" "''tenant''" example_leaf_state]
      removeSubdomain_tracked [of "''base''" "''tenant''" example_leaf_state]
    by (simp add: e example_leaf_tracked)
qed

text \<open>
  Claim C10, as amended. \<open>removeSubdomain\<close> makes no ownership or membership check:
  for every name with a dot it sends the store the removal of the lower-case name from
  the tenant's array, whatever the array holds. For every input without a dot (null,
  undefined and a bare label among them) it returns without an error and changes
  nothing. For an input with a dot it returns without an error whenever the tenant's
  document exists; when the document does not exist the store rejects the update and
  \<open>removeSubdomain\<close> fails with the store's error, having changed nothing but the list
  of requests the store received.
\<close>

theorem removeSubdomain_unchecked:
  "(CHR ''.'' \<in> set nm \<longrightarrow>
      writes (snd (removeSubdomain ref (JString nm) st)) =
        writes st @ [DocUpdate ref (ArrayRemove (toLowerCase nm))])
   \<and> (CHR ''.'' \<notin> set (or_empty v) \<longrightarrow> removeSubdomain ref v st = (Inr (), st))
   \<and> (doc_get ref st \<noteq> None \<longrightarrow> fst (removeSubdomain ref v st) = Inr ())
   \<and> (doc_get ref st = None \<and> CHR ''.'' \<in> set (or_empty v) \<longrightarrow>
        removeSubdomain ref v st =
          (Inl StoreNotFound,
           st\<lparr>writes := writes st @ [DocUpdate ref (ArrayRemove (toLowerCase (or_empty v)))]\<rparr>))"
proof (intro conjI impI)
  assume "CHR ''.'' \<in> set nm"
  then have "CHR ''.'' \<in> set (or_empty (JString nm))" by simp
  from removeSubdomain_dotted [OF this]
  show "writes (snd (removeSubdomain ref (JString nm) st)) =
        writes st @ [DocUpdate ref (ArrayRemove (toLowerCase nm))]"
    by (cases "doc_get ref st") (simp_all add: doc_update_None doc_update_Some)
next
  assume "CHR ''.'' \<notin> set (or_empty v)"
  then show "removeSubdomain ref v st = (Inr (), st)" by (rule removeSubdomain_bare)
next
  assume "doc_get ref st \<noteq> None"
  then obtain d where d: "doc_get ref st = Some d" by auto
  show "fst (removeSubdomain ref v st) = Inr ()"
  proof (cases "CHR ''.'' \<in> set (or_empty v)")
    case True
    then show ?thesis by (simp add: removeSubdomain_dotted doc_update_Some [OF d])
  next
    case False
    then show ?thesis by (simp add: removeSubdomain_bare)
  qed
next
  assume "doc_get ref st = None \<and> CHR ''.'' \<in> set (or_empty v)"
  then show "removeSubdomain ref v st =
          (Inl StoreNotFound,
           st\<lparr>writes := writes st @ [DocUpdate ref (ArrayRemove (toLowerCase (or_empty v)))]\<rparr>)"
    by (simp add: removeSubdomain_dotted doc_update_None)
qed

theorem removeSubdomain_unchecked_witness:
  "CHR ''.'' \<in> set ''never.tracked''
   \<and> writes (snd (removeSubdomain ''tenant'' (JString ''never.tracked'') example_state))
       = [DocUpdate ''tenant'' (ArrayRemove ''never.tracked'')]
   \<and> CHR ''.'' \<notin> set (or_empty JNull)
   \<and> removeSubdomain ''tenant'' JNull example_state = (Inr (), example_state)
   \<and> doc_get ''tenant'' example_state \<noteq> None
   \<and> fst (removeSubdomain ''tenant'' (JString ''never.tracked'') example_state) = Inr ()
   \<and> doc_get ''nobody'' example_state = None
   \<and> CHR ''.'' \<in> set (or_empty (JString ''never.tracked''))
   \<and> removeSubdomain ''nobody'' (JString ''never.tracked'') example_state =
       (Inl StoreNotFound,
        example_state\<lparr>writes := [DocUpdate ''nobody'' (ArrayRemove ''never.tracked'')]\<rparr>)"
proof -
  have e: "toLowerCase ''never.tracked'' = ''never.tracked''" by code_simp
  have w: "writes example_state = []" by (simp add: example_state_def)
  have n: "doc_get ''nobody'' example_state = None"
    by (simp add: doc_get_def example_state_def)
  show ?thesis
    using removeSubdomain_unchecked
        [of "''never.tracked''" "''tenant''" example_state JNull]
      removeSubdomain_unchecked
        [of "''never.tracked''" "''tenant''" example_state "JString ''never.tracked''"]
      removeSubdomain_unchecked
        [of "''never.tracked''" "''nobody''" example_state "JString ''never.tracked''"]
    by (simp add: e w n example_doc_get)
qed

text \<open>
  The claim as it was stated fails where the tenant's document does not exist: the
  store rejects the update and \<open>removeSubdomain\<close> throws.
\<close>

theorem removeSubdomain_missing_tenant:
  "fst (removeSubdomain ''nobody'' (JString ''a.b'') example_state) = Inl StoreNotFound"
  by code_simp

section \<open>Tenant Provisioner: validation and uniqueness\<close>

lemma where_array_contains_iff:
  "i \<in> set (where_array_contains nm st) \<longleftrightarrow>
     (\<exists>d. doc_get i st = Some d \<and> nm \<in> set (subdomains d))"
  by (auto simp: where_array_contains_def doc_get_def split: option.splits
      dest: map_of_SomeD intro: rev_image_eqI)

lemma where_array_contains_distinct: "distinct (where_array_contains nm st)"
  by (simp add: where_array_contains_def)

lemma where_array_contains_empty:
  "where_array_contains nm st \<noteq> [] \<longleftrightarrow>
     (\<exists>i d. doc_get i st = Some d \<and> nm \<in> set (subdomains d))"
proof -
  have "where_array_contains nm st \<noteq> [] \<longleftrightarrow> (\<exists>i. i \<in> set (where_array_contains nm st))"
    by (cases "where_array_contains nm st") auto
  then show ?thesis by (simp add: where_array_contains_iff)
qed

lemma domainExists_label:
  assumes "match_label n"
  shows "domainExists (JString n) st =
           Inr (\<exists>i d. doc_get i st = Some d \<and> n \<in> set (subdomains d))"
  using match_label_no_dot [OF assms]
  by (simp add: domainExists_def Let_def match_label_lower [OF assms] includes_char_def
      where_array_contains_empty)

lemma createSubdomain_cases:
  "createSubdomain uuid now v owner st =
     (if \<not> match_label (toLowerCase (String v)) then (Inl InvalidName, st)
      else if \<exists>i d. doc_get i st = Some d \<and> toLowerCase (String v) \<in> set (subdomains d)
      then (Inl AlreadyExists, st)
      else if owner = JUndefined then (Inl StoreInvalidData, st)
      else (Inr uuid,
            st\<lparr>domains :=
                 AList.update uuid
                   \<lparr>created_by = owner, created_date = now,
                      subdomains = [toLowerCase (String v)]\<rparr> (domains st),
               writes :=
                 writes st @
                 [DocSet uuid \<lparr>created_by = owner, created_date = now,
                                 subdomains = [toLowerCase (String v)]\<rparr>]\<rparr>))"
proof (cases "match_label (toLowerCase (String v))")
  case True
  show ?thesis
    by (simp add: createSubdomain_def Let_def True domainExists_label [OF True] doc_set_def)
next
  case False
  then show ?thesis by (simp add: createSubdomain_def Let_def)
qed

lemma createSubdomain_label:
  assumes "match_label n"
  shows "createSubdomain uuid now (JString n) owner st =
           (if \<exists>i d. doc_get i st = Some d \<and> n \<in> set (subdomains d)
            then (Inl AlreadyExists, st)
            else if owner = JUndefined then (Inl StoreInvalidData, st)
            else (Inr uuid,
                  st\<lparr>domains :=
                       AList.update uuid
                         \<lparr>created_by = owner, created_date = now, subdomains = [n]\<rparr> (domains st),
                     writes :=
                       writes st @
                       [DocSet uuid \<lparr>created_by = owner, created_date = now,
                                       subdomains = [n]\<rparr>]\<rparr>))"
  using assms by (simp add: createSubdomain_cases match_label_lower [OF assms])

lemma createSubdomain_holder:
  assumes "match_label n" and "owner \<noteq> JUndefined"
  shows "\<exists>i d. doc_get i (snd (createSubdomain uuid now (JString n) owner st)) = Some d
               \<and> n \<in> set (subdomains d)"
proof (cases "\<exists>i d. doc_get i st = Some d \<and> n \<in> set (subdomains d)")
  case True
  then show ?thesis by (simp add: createSubdomain_label [OF assms(1)])
next
  case False
  have "doc_get uuid
          (st\<lparr>domains :=
                AList.update uuid
                  \<lparr>created_by = owner, created_date = now, subdomains = [n]\<rparr> (domains st),
              writes := ws\<rparr>)
          = Some \<lparr>created_by = owner, created_date = now, subdomains = [n]\<rparr>" for ws
    by (simp add: doc_get_def update_conv')
  then show ?thesis
    using False assms(2) by (simp add: createSubdomain_label [OF assms(1)]) force
qed

lemma createSubdomain_unique:
  assumes "length (where_array_contains b st) \<le> 1"
  shows "length (where_array_contains b (snd (createSubdomain uuid now v owner st))) \<le> 1"
proof -
  define n where "n = toLowerCase (String v)"
  define st1 where
    "st1 = st\<lparr>domains :=
                 AList.update uuid
                   \<lparr>created_by = owner, created_date = now, subdomains = [n]\<rparr> (domains st),
               writes :=
                 writes st @
                 [DocSet uuid \<lparr>created_by = owner, created_date = now, subdomains = [n]\<rparr>]\<rparr>"
  show ?thesis
  proof (cases "match_label n \<and> \<not> (\<exists>i d. doc_get i st = Some d \<and> n \<in> set (subdomains d))
                \<and> owner \<noteq> JUndefined")
    case False
    then have "snd (createSubdomain uuid now v owner st) = st"
      by (auto simp: createSubdomain_cases n_def)
    with assms show ?thesis by simp
  next
    case True
    then have st1: "snd (createSubdomain uuid now v owner st) = st1"
      by (auto simp: createSubdomain_cases n_def st1_def)
    have g: "doc_get i st1 =
               (if i = uuid
                then Some \<lparr>created_by = owner, created_date = now, subdomains = [n]\<rparr>
                else doc_get i st)" for i
      by (simp add: st1_def doc_get_def update_conv')
    have sub: "set (where_array_contains b st1) \<subseteq>
                 (if b = n then {uuid} else set (where_array_contains b st))"
      using True by (auto simp: where_array_contains_iff g split: if_splits)
    have "length (where_array_contains b st1) = card (set (where_array_contains b st1))"
      by (simp add: distinct_card where_array_contains_distinct)
    also have "\<dots> \<le> card (if b = n then {uuid} else set (where_array_contains b st))"
      by (rule card_mono) (use sub in auto)
    also have "\<dots> \<le> 1"
      using assms by (auto simp: distinct_card where_array_contains_distinct)
    finally show ?thesis by (simp add: st1)
  qed
qed

text \<open>
  Claim C5. For every name matching the base-label pattern and every owner (a defined
  value: the store client refuses a document whose \<open>created_by\<close> is \<open>undefined\<close>),
  after \<open>createSubdomain(N, owner)\<close> the query \<open>domainExists(N)\<close> returns true and a
  further \<open>createSubdomain(N, owner2)\<close> by any owner fails with \<open>AlreadyExists\<close>,
  leaving the state as it was. A label that at most one tenant holds is still held by
  at most one tenant afterwards.
\<close>

theorem createSubdomain_then_exists:
  assumes "match_label n" and "owner \<noteq> JUndefined"
  shows "domainExists (JString n) (snd (createSubdomain uuid now (JString n) owner st)) = Inr True
       \<and> createSubdomain uuid2 now2 (JString n) owner2
           (snd (createSubdomain uuid now (JString n) owner st)) =
         (Inl AlreadyExists, snd (createSubdomain uuid now (JString n) owner st))
       \<and> (length (where_array_contains b st) \<le> 1 \<longrightarrow>
            length (where_array_contains b (snd (createSubdomain uuid now (JString n) owner st)))
              \<le> 1)"
  using createSubdomain_holder [OF assms, of uuid now st]
    createSubdomain_unique [of b st uuid now "JString n" owner]
  by (simp add: domainExists_label [OF assms(1)] createSubdomain_label [OF assms(1), of uuid2])

theorem createSubdomain_then_exists_witness:
  "match_label ''my-site''
   \<and> JString ''0123456789'' \<noteq> JUndefined
   \<and> domainExists (JString ''my-site'')
        (snd (createSubdomain ''id-1'' 7 (JString ''my-site'') (JString ''0123456789'')
                example_state)) = Inr True
   \<and> fst (createSubdomain ''id-2'' 8 (JString ''my-site'') (JString ''9876543210'')
            (snd (createSubdomain ''id-1'' 7 (JString ''my-site'') (JString ''0123456789'')
                    example_state))) = Inl AlreadyExists
   \<and> length (where_array_contains ''my-site'' example_state) \<le> 1
   \<and> length (where_array_contains ''my-site''
        (snd (createSubdomain ''id-1'' 7 (JString ''my-site'') (JString ''0123456789'')
                example_state))) \<le> 1"
proof -
  have m: "match_label ''my-site''" by code_simp
  have o: "JString ''0123456789'' \<noteq> JUndefined" by simp
  have l: "length (where_array_contains ''my-site'' example_state) \<le> 1" by code_simp
  show ?thesis
    using createSubdomain_then_exists
        [OF m o, where uuid = "''id-1''" and now = 7 and st = example_state
           and ?uuid2.0 = "''id-2''" and ?now2.0 = 8
           and ?owner2.0 = "JString ''9876543210''" and b = "''my-site''"]
      m l
    by simp
qed

text \<open>
  Claim C2, as amended. \<open>createSubdomain\<close> puts the name in lower case before it
  matches it. For every name whose lower-case form does not match the base-label
  pattern, \<open>"-bad"\<close> and \<open>"a..b"\<close> among them, it fails with \<open>InvalidName\<close>, sends the
  store nothing and creates no document. A name whose lower-case form matches, such as
  \<open>"UP"\<close>, is never rejected with \<open>InvalidName\<close>: if a tenant already tracks the
  lower-case form the call fails with \<open>AlreadyExists\<close> and changes nothing; if none
  does and the owner is \<open>undefined\<close> the store client refuses the document and nothing
  changes; otherwise the call returns the new identifier and the store holds, under it,
  a document whose array is the lower-case form alone.
\<close>

theorem createSubdomain_invalid:
  "(\<not> match_label (toLowerCase (String v)) \<longrightarrow>
      createSubdomain uuid now v owner st = (Inl InvalidName, st))
   \<and> (match_label (toLowerCase (String v)) \<longrightarrow>
      fst (createSubdomain uuid now v owner st) \<noteq> Inl InvalidName)
   \<and> (match_label (toLowerCase (String v))
        \<and> where_array_contains (toLowerCase (String v)) st \<noteq> [] \<longrightarrow>
      createSubdomain uuid now v owner st = (Inl AlreadyExists, st))
   \<and> (match_label (toLowerCase (String v))
        \<and> where_array_contains (toLowerCase (String v)) st = [] \<and> owner = JUndefined \<longrightarrow>
      createSubdomain uuid now v owner st = (Inl StoreInvalidData, st))
   \<and> (match_label (toLowerCase (String v))
        \<and> where_array_contains (toLowerCase (String v)) st = [] \<and> owner \<noteq> JUndefined \<longrightarrow>
      createSubdomain uuid now v owner st =
        (Inr uuid,
         st\<lparr>domains :=
              AList.update uuid
                \<lparr>created_by = owner, created_date = now,
                   subdomains = [toLowerCase (String v)]\<rparr> (domains st),
            writes :=
              writes st @
              [DocSet uuid \<lparr>created_by = owner, created_date = now,
                              subdomains = [toLowerCase (String v)]\<rparr>]\<rparr>))"
  using where_array_contains_empty [of "toLowerCase (String v)" st]
  by (simp add: createSubdomain_cases)

theorem createSubdomain_invalid_witness:
  "\<not> match_label (toLowerCase (String (JString ''-bad'')))
   \<and> createSubdomain ''id-1'' 7 (JString ''-bad'') JNull example_state
       = (Inl InvalidName, example_state)
   \<and> \<not> match_label (toLowerCase (String (JString ''a..b'')))
   \<and> createSubdomain ''id-1'' 7 (JString ''a..b'') JNull example_state
       = (Inl InvalidName, example_state)
   \<and> match_label (toLowerCase (String (JString ''BASE'')))
   \<and> where_array_contains (toLowerCase (String (JString ''BASE''))) example_state \<noteq> []
   \<and> createSubdomain ''id-1'' 7 (JString ''BASE'') JNull example_state
       = (Inl AlreadyExists, example_state)
   \<and> match_label (toLowerCase (String (JString ''UP'')))
   \<and> where_array_contains (toLowerCase (String (JString ''UP''))) example_state = []
   \<and> createSubdomain ''id-1'' 7 (JString ''UP'') JUndefined example_state
       = (Inl StoreInvalidData, example_state)
   \<and> JNull \<noteq> JUndefined
   \<and> fst (createSubdomain ''id-1'' 7 (JString ''UP'') JNull example_state) \<noteq> Inl InvalidName
   \<and> createSubdomain ''id-1'' 7 (JString ''UP'') JNull example_state
       = (Inr ''id-1'',
          example_state
            \<lparr>domains :=
               AList.update ''id-1''
                 \<lparr>created_by = JNull, created_date = 7, subdomains = [''up'']\<rparr>
                 (domains example_state),
             writes :=
               writes example_state @
               [DocSet ''id-1'' \<lparr>created_by = JNull, created_date = 7, subdomains = [''up'']\<rparr>]\<rparr>)"
proof -
  have b1: "\<not> match_label (toLowerCase (String (JString ''-bad'')))"
    and b2: "\<not> match_label (toLowerCase (String (JString ''a..b'')))"
    and b3: "match_label (toLowerCase (String (JString ''UP'')))"
    and b4: "match_label (toLowerCase (String (JString ''BASE'')))"
    and b5: "where_array_contains (toLowerCase (String (JString ''BASE''))) example_state \<noteq> []"
    and b6: "where_array_contains (toLowerCase (String (JString ''UP''))) example_state = []"
    and b7: "toLowerCase (String (JString ''UP'')) = ''up''"
    by code_simp+
  have b8: "JNull \<noteq> JUndefined" by simp
  note t = createSubdomain_invalid [where uuid = "''id-1''" and now = 7 and st = example_state]
  show ?thesis
    using t [of "JString ''-bad''" JNull] t [of "JString ''a..b''" JNull]
      t [of "JString ''BASE''" JNull] t [of "JString ''UP''" JUndefined]
      t [of "JString ''UP''" JNull] b1 b2 b3 b4 b5 b6 b7 b8
    by simp
qed

text \<open>
  The claim as it was stated fails at \<open>"UP"\<close>: the name does not match the pattern,
  and \<open>createSubdomain\<close> accepts it and creates a tenant owning \<open>"up"\<close>.
\<close>

theorem createSubdomain_UP_accepted:
  "\<not> match_label ''UP''
   \<and> fst (createSubdomain ''id-1'' 0 (JString ''UP'') JNull example_state) = Inr ''id-1''
   \<and> tracked ''id-1'' (snd (createSubdomain ''id-1'' 0 (JString ''UP'') JNull example_state))
       = Some [''up'']"
  by code_simp

section \<open>The invariant of the tracked sets\<close>

lemma tenant_inv_iff:
  "tenant_inv xs \<longleftrightarrow> (\<forall>e \<in> set xs. CHR ''.'' \<in> set e \<longrightarrow> last (split (CHR ''.'') e) \<in> set xs)"
  by (auto simp: tenant_inv_def list_all_iff includes_char_def Let_def last_split_no_sep)

lemma store_inv_iff:
  "store_inv st \<longleftrightarrow> (\<forall>i d. doc_get i st = Some d \<longrightarrow> tenant_inv (subdomains d))"
  by (auto simp: store_inv_def list_all_iff doc_get_def split: option.splits
      dest: map_of_SomeD intro: rev_image_eqI) (metis fst_conv image_eqI map_of_SomeD)

lemma tenant_inv_removeAll:
  assumes "tenant_inv xs" and "CHR ''.'' \<in> set n"
  shows "tenant_inv (removeAll n xs)"
  unfolding tenant_inv_iff
proof (intro ballI impI)
  fix e assume e: "e \<in> set (removeAll n xs)" and dot: "CHR ''.'' \<in> set e"
  then have "last (split (CHR ''.'') e) \<in> set xs"
    using assms(1) by (auto simp: tenant_inv_iff)
  moreover have "last (split (CHR ''.'') e) \<noteq> n"
    using last_split_no_sep [of "CHR ''.''" e] assms(2) by auto
  ultimately show "last (split (CHR ''.'') e) \<in> set (removeAll n xs)" by simp
qed

lemma tenant_inv_append:
  assumes "tenant_inv xs" and "last (split (CHR ''.'') n) \<in> set xs"
  shows "tenant_inv (xs @ [n])"
  using assms by (auto simp: tenant_inv_iff)

lemma tenant_inv_single: "CHR ''.'' \<notin> set n \<Longrightarrow> tenant_inv [n]"
  by (simp add: tenant_inv_iff)

lemma store_inv_removeSubdomain:
  assumes "store_inv st"
  shows "store_inv (snd (removeSubdomain ref v st))"
proof (cases "CHR ''.'' \<in> set (or_empty v)")
  case False
  then show ?thesis using assms by (simp add: removeSubdomain_bare)
next
  case True
  then have dot: "CHR ''.'' \<in> set (toLowerCase (or_empty v))" by (simp add: toLowerCase_dot)
  show ?thesis
  proof (cases "doc_get ref st")
    case None
    then show ?thesis
      using assms by (simp add: removeSubdomain_dotted [OF True] doc_update_None store_inv_iff)
  next
    case (Some d)
    then have "tenant_inv (subdomains d)" using assms by (simp add: store_inv_iff)
    from tenant_inv_removeAll [OF this dot] show ?thesis
      using assms Some
      by (simp add: removeSubdomain_dotted [OF True] doc_update_Some [OF Some] store_inv_iff
          doc_get_domains_update)
  qed
qed

lemma addSubdomain_coherent:
  assumes "doc_get ref st = Some doc" and "coherent ref st"
  shows "addSubdomain ref v st =
     (if last (split (CHR ''.'') (toLowerCase (or_empty v))) \<notin> set (subdomains doc)
      then (Inl OwnershipMismatch, st\<lparr>this_subdomains := Some (subdomains doc)\<rparr>)
      else if toLowerCase (or_empty v) \<in> set (subdomains doc)
      then (Inr (), st\<lparr>this_subdomains := Some (subdomains doc)\<rparr>)
      else (Inr (),
            st\<lparr>this_subdomains := None,
               writes := writes st @ [DocUpdate ref (ArrayUnion (toLowerCase (or_empty v)))],
               domains := AList.update ref
                  (doc\<lparr>subdomains := subdomains doc @ [toLowerCase (or_empty v)]\<rparr>) (domains st)\<rparr>))"
proof -
  let ?st1 = "st\<lparr>this_subdomains := Some (subdomains doc)\<rparr>"
  have g: "getAllSubdomains ref ?st1 = (Inr (subdomains doc), ?st1)"
    by (simp add: getAllSubdomains_def)
  have d: "doc_get ref ?st1 = Some doc" using assms(1) by simp
  show ?thesis
    by (simp add: addSubdomain_def assertSubdomain_coherent [OF assms] g doc_update_Some [OF d])
qed

lemma addSubdomain_missing:
  assumes "doc_get ref st = None" and "coherent ref st"
  shows "addSubdomain ref v st = (Inl TenantNotFound, st)"
  using assms
  by (auto simp: addSubdomain_def assertSubdomain_def getAllSubdomains_def coherent_def
      tracked_def Let_def split: option.splits)

lemma store_inv_addSubdomain:
  assumes "store_inv st" and "coherent ref st"
  shows "store_inv (snd (addSubdomain ref v st))"
proof (cases "doc_get ref st")
  case None
  then show ?thesis using assms by (simp add: addSubdomain_missing)
next
  case (Some d)
  then have inv: "tenant_inv (subdomains d)" using assms by (simp add: store_inv_iff)
  show ?thesis
    using assms(1) Some tenant_inv_append [OF inv, of "toLowerCase (or_empty v)"]
    by (simp add: addSubdomain_coherent [OF Some assms(2)] store_inv_iff doc_get_domains_update)
qed

lemma store_inv_createSubdomain:
  assumes "store_inv st"
  shows "store_inv (snd (createSubdomain uuid now v owner st))"
  using assms
  by (auto simp: createSubdomain_cases store_inv_iff doc_get_def update_conv' tenant_inv_single
      match_label_no_dot split: if_splits)

lemma example_leaf_doc_get: "doc_get ''tenant'' example_leaf_state = Some example_leaf_doc"
  by (simp add: doc_get_def example_leaf_state_def)

lemma example_leaf_coherent: "coherent ''tenant'' example_leaf_state"
  by (simp add: coherent_def example_leaf_state_def)

text \<open>
  Claim C9. Each mutation of a tracked set, \<open>createSubdomain\<close>, \<open>addSubdomain\<close> (on a
  \<open>Subdomain\<close> object coherent with the store) and \<open>removeSubdomain\<close>, preserves the
  invariant that every element of every tenant's tracked set is a bare label or a
  dotted label whose trailing segment is a bare label of the same set.
\<close>

theorem tenant_invariant_preserved:
  assumes "store_inv st"
  shows "store_inv (snd (createSubdomain uuid now v1 owner st))
       \<and> (coherent ref st \<longrightarrow> store_inv (snd (addSubdomain ref v2 st)))
       \<and> store_inv (snd (removeSubdomain ref v3 st))"
  using store_inv_createSubdomain [OF assms] store_inv_addSubdomain [OF assms]
    store_inv_removeSubdomain [OF assms]
  by simp

theorem tenant_invariant_preserved_witness:
  "store_inv example_leaf_state
   \<and> store_inv (snd (createSubdomain ''id-1'' 7 (JString ''my-site'') JNull example_leaf_state))
   \<and> coherent ''tenant'' example_leaf_state
   \<and> store_inv (snd (addSubdomain ''tenant'' (JString ''api.base'') example_leaf_state))
   \<and> store_inv (snd (removeSubdomain ''tenant'' (JString ''www.base'') example_leaf_state))"
proof -
  have i: "store_inv example_leaf_state" by code_simp
  show ?thesis
    using tenant_invariant_preserved
        [OF i, where uuid = "''id-1''" and now = 7 and ?v1.0 = "JString ''my-site''"
           and owner = JNull and ref = "''tenant''" and ?v2.0 = "JString ''api.base''"
           and ?v3.0 = "JString ''www.base''"]
      i example_leaf_coherent
    by simp
qed

section \<open>Zone Reconciler: formatting\<close>

lemma whitelist_case_roundtrip:
  assumes "ty \<in> set TYPE_WHITELIST"
  shows "toLowerCase (toUpperCase (toUpperCase ty)) = ty"
proof -
  have "list_all (\<lambda>ty. toLowerCase (toUpperCase (toUpperCase ty)) = ty) TYPE_WHITELIST"
    by code_simp
  with assms show ?thesis by (simp add: list_all_iff)
qed

lemma validateType_Inr:
  "validateType t = Inr ty \<Longrightarrow> ty \<in> set TYPE_WHITELIST \<and> ty = toLowerCase (or_empty t)"
  by (auto simp: validateType_def Let_def split: if_splits)

lemma validateType_upper:
  assumes "ty \<in> set TYPE_WHITELIST"
  shows "validateType (JString (toUpperCase (toUpperCase ty))) = Inr ty"
  using assms by (simp add: validateType_def Let_def whitelist_case_roundtrip)

lemma createRecord_Inr:
  assumes "validateType aType = Inr ty"
  shows "createRecord aType aName aValue =
           Inr \<lparr>dns_record.name = toLowerCase (or_empty aName) @ ''.'' @ DOMAIN,
                type = toUpperCase ty, ttl = DEFAULT_TTL, data = lines_of (or_empty aValue)\<rparr>"
  by (simp add: createRecord_def assms zone_record_def lines_of_def)

lemma formatRecord_suffix:
  "formatRecord \<lparr>dns_record.name = nm @ ''.'' @ DOMAIN, type = ty, ttl = t, data = ds\<rparr> =
     \<lparr>formatted.name = toLowerCase nm, data = join [CHR 0x0A] ds, type = toUpperCase ty\<rparr>"
  by (simp add: formatRecord_def endsWith_def slice_end_def Let_def)

lemma formatRecord_example:
  "formatRecord \<lparr>dns_record.name = ''www.base.u-tokyo.app.'', type = ''A'', ttl = t,
                  data = [''1.2.3.4'', ''5.6.7.8'']\<rparr> =
     \<lparr>formatted.name = ''www.base'', data = ''1.2.3.4'' @ [CHR 0x0A] @ ''5.6.7.8'', type = ''A''\<rparr>"
proof -
  have e: "toLowerCase ''www.base'' = ''www.base''" "toUpperCase ''A'' = ''A''" by code_simp+
  show ?thesis
    using formatRecord_suffix [of "''www.base''" "''A''" t "[''1.2.3.4'', ''5.6.7.8'']"]
    by (simp add: e DOMAIN_def)
qed

text \<open>
  Claim C6. Formatting a provider record is the inverse of the normalisation at write
  time: it strips the parent-domain suffix from the name and puts the name in lower
  case, joins the data with line feeds and puts the type in upper case. So the record
  \<open>{name: "www.base.u-tokyo.app.", data: ["1.2.3.4", "5.6.7.8"], type: "A"}\<close> formats
  to \<open>{name: "www.base", data: "1.2.3.4\n5.6.7.8", type: "A"}\<close>, and writing the
  formatted form of a record that \<open>createRecord\<close> built gives that record again.
\<close>

theorem formatRecord_inverse:
  "formatRecord \<lparr>dns_record.name = ''www.base.u-tokyo.app.'', type = ''A'', ttl = t,
                  data = [''1.2.3.4'', ''5.6.7.8'']\<rparr> =
     \<lparr>formatted.name = ''www.base'', data = ''1.2.3.4'' @ [CHR 0x0A] @ ''5.6.7.8'', type = ''A''\<rparr>
   \<and> formatRecord \<lparr>dns_record.name = nm @ ''.'' @ DOMAIN, type = ty, ttl = t, data = ds\<rparr> =
     \<lparr>formatted.name = toLowerCase nm, data = join [CHR 0x0A] ds, type = toUpperCase ty\<rparr>
   \<and> (createRecord aType aName aValue = Inr r \<longrightarrow>
        createRecord (JString (formatted.type (formatRecord r)))
                     (JString (formatted.name (formatRecord r)))
                     (JString (formatted.data (formatRecord r))) = Inr r)"
proof (intro conjI impI)
  assume cr: "createRecord aType aName aValue = Inr r"
  then obtain ty0 where ty0: "validateType aType = Inr ty0"
    by (auto simp: createRecord_def split: sum.splits)
  have r: "r = \<lparr>dns_record.name = toLowerCase (or_empty aName) @ ''.'' @ DOMAIN,
                type = toUpperCase ty0, ttl = DEFAULT_TTL, data = lines_of (or_empty aValue)\<rparr>"
    using cr by (simp add: createRecord_Inr [OF ty0])
  have f: "formatRecord r =
             \<lparr>formatted.name = toLowerCase (or_empty aName),
               data = join [CHR 0x0A] (lines_of (or_empty aValue)),
               type = toUpperCase (toUpperCase ty0)\<rparr>"
    unfolding r by (simp only: formatRecord_suffix toLowerCase_idem)
  have v: "validateType (JString (toUpperCase (toUpperCase ty0))) = Inr ty0"
    using validateType_Inr [OF ty0] by (intro validateType_upper) blast
  have "createRecord (JString (formatted.type (formatRecord r)))
                     (JString (formatted.name (formatRecord r)))
                     (JString (formatted.data (formatRecord r))) =
          Inr \<lparr>dns_record.name = toLowerCase (or_empty aName) @ ''.'' @ DOMAIN,
                type = toUpperCase ty0, ttl = DEFAULT_TTL, data = lines_of (or_empty aValue)\<rparr>"
    by (simp add: f createRecord_Inr [OF v] toLowerCase_idem lines_of_join)
  also have "\<dots> = Inr r" by (simp only: r)
  finally show "createRecord (JString (formatted.type (formatRecord r)))
                     (JString (formatted.name (formatRecord r)))
                     (JString (formatted.data (formatRecord r))) = Inr r" .
qed (rule formatRecord_example, rule formatRecord_suffix)

theorem formatRecord_inverse_witness:
  "createRecord (JString ''A'') (JString ''WWW.Base'')
     (JString ('' 1.2.3.4 '' @ [CHR 0x0A, CHR 0x0A] @ ''5.6.7.8'')) =
     Inr \<lparr>dns_record.name = ''www.base.u-tokyo.app.'', type = ''A'', ttl = 300,
           data = [''1.2.3.4'', ''5.6.7.8'']\<rparr>
   \<and> createRecord
       (JString (formatted.type (formatRecord
          \<lparr>dns_record.name = ''www.base.u-tokyo.app.'', type = ''A'', ttl = 300,
            data = [''1.2.3.4'', ''5.6.7.8'']\<rparr>)))
       (JString (formatted.name (formatRecord
          \<lparr>dns_record.name = ''www.base.u-tokyo.app.'', type = ''A'', ttl = 300,
            data = [''1.2.3.4'', ''5.6.7.8'']\<rparr>)))
       (JString (formatted.data (formatRecord
          \<lparr>dns_record.name = ''www.base.u-tokyo.app.'', type = ''A'', ttl = 300,
            data = [''1.2.3.4'', ''5.6.7.8'']\<rparr>))) =
     Inr \<lparr>dns_record.name = ''www.base.u-tokyo.app.'', type = ''A'', ttl = 300,
           data = [''1.2.3.4'', ''5.6.7.8'']\<rparr>"
proof -
  have c: "createRecord (JString ''A'') (JString ''WWW.Base'')
     (JString ('' 1.2.3.4 '' @ [CHR 0x0A, CHR 0x0A] @ ''5.6.7.8'')) =
     Inr \<lparr>dns_record.name = ''www.base.u-tokyo.app.'', type = ''A'', ttl = 300,
           data = [''1.2.3.4'', ''5.6.7.8'']\<rparr>"
    by code_simp
  from formatRecord_inverse
    [where aType = "JString ''A''" and aName = "JString ''WWW.Base''"
       and aValue = "JString ('' 1.2.3.4 '' @ [CHR 0x0A, CHR 0x0A] @ ''5.6.7.8'')"
       and r = "\<lparr>dns_record.name = ''www.base.u-tokyo.app.'', type = ''A'', ttl = 300,
                  data = [''1.2.3.4'', ''5.6.7.8'']\<rparr>"]
  have "createRecord
       (JString (formatted.type (formatRecord
          \<lparr>dns_record.name = ''www.base.u-tokyo.app.'', type = ''A'', ttl = 300,
            data = [''1.2.3.4'', ''5.6.7.8'']\<rparr>)))
       (JString (formatted.name (formatRecord
          \<lparr>dns_record.name = ''www.base.u-tokyo.app.'', type = ''A'', ttl = 300,
            data = [''1.2.3.4'', ''5.6.7.8'']\<rparr>)))
       (JString (formatted.data (formatRecord
          \<lparr>dns_record.name = ''www.base.u-tokyo.app.'', type = ''A'', ttl = 300,
            data = [''1.2.3.4'', ''5.6.7.8'']\<rparr>))) =
     Inr \<lparr>dns_record.name = ''www.base.u-tokyo.app.'', type = ''A'', ttl = 300,
           data = [''1.2.3.4'', ''5.6.7.8'']\<rparr>"
    using c by blast
  with c show ?thesis by blast
qed

section \<open>Zone Reconciler: updating a record\<close>

lemma zone_getRecords_after_change:
  "zone_getRecords nm ty (zone_createChange \<lparr>add = new, delete = zone_getRecords nm ty st\<rparr> st) =
     filter (\<lambda>r. dns_record.name r = nm \<and> (case ty of None \<Rightarrow> True | Some t \<Rightarrow> dns_record.type r = t)) new"
  by (auto simp: zone_getRecords_def zone_createChange_def filter_empty_conv)

lemma www_base_facts:
  "toLowerCase ''www.base'' = ''www.base''"
  "last (split (CHR ''.'') ''www.base'') = ''base''"
  "trim ''1.2.3.4'' = ''1.2.3.4''"
  by code_simp+

lemma addSubdomain_zone:
  "zone (snd (addSubdomain ref v st)) = zone st \<and> changes (snd (addSubdomain ref v st)) = changes st"
  by (auto simp: addSubdomain_def assertSubdomain_def getAllSubdomains_def doc_update_def Let_def
      split: option.splits sum.splits prod.splits if_splits)

text \<open>
  Claim C3. For every tenant that owns the base subdomain \<open>base\<close> and every type of
  the whitelist (\<open>a\<close> among them), after \<open>updateRecord(type, "www.base", "1.2.3.4")\<close>
  the query \<open>getRecordsByType(type, "www.base")\<close> returns exactly one record, whose
  data is \<open>["1.2.3.4"]\<close>, and \<open>www.base\<close> is in the tenant's tracked set. The change
  sent to the zone always deletes every old record of that type and name and adds the
  new record, also when the zone already holds a record equal to the new one.
\<close>

theorem updateRecord_www_base:
  assumes "doc_get ref st = Some doc" and "coherent ref st"
    and "''base'' \<in> set (subdomains doc)" and "validateType t = Inr ty"
  shows "fst (updateRecord ref t (JString ''www.base'') (JString ''1.2.3.4'') st) = Inr ()
       \<and> getRecordsByType t (JString ''www.base'')
           (snd (updateRecord ref t (JString ''www.base'') (JString ''1.2.3.4'') st)) =
         Inr [\<lparr>dns_record.name = ''www.base.u-tokyo.app.'', type = toUpperCase ty, ttl = 300,
               data = [''1.2.3.4'']\<rparr>]
       \<and> (\<exists>xs. tracked ref (snd (updateRecord ref t (JString ''www.base'') (JString ''1.2.3.4'') st))
                  = Some xs \<and> ''www.base'' \<in> set xs)
       \<and> changes (snd (updateRecord ref t (JString ''www.base'') (JString ''1.2.3.4'') st)) =
           changes st @
           [\<lparr>add = [\<lparr>dns_record.name = ''www.base.u-tokyo.app.'', type = toUpperCase ty,
                      ttl = 300, data = [''1.2.3.4'']\<rparr>],
             delete = filter (\<lambda>r. dns_record.name r = ''www.base.u-tokyo.app.''
                                \<and> dns_record.type r = toUpperCase ty) (zone st)\<rparr>]"
proof -
  let ?new = "\<lparr>dns_record.name = ''www.base.u-tokyo.app.'', type = toUpperCase ty, ttl = 300,
               data = [''1.2.3.4'']\<rparr>"
  have "fst (addSubdomain ref (JString ''www.base'') st) = Inr ()"
    using assms(3) by (simp add: addSubdomain_coherent [OF assms(1,2)] www_base_facts)
  then obtain st1 where a: "addSubdomain ref (JString ''www.base'') st = (Inr (), st1)"
    by (cases "addSubdomain ref (JString ''www.base'') st") auto
  have tr: "\<exists>xs. tracked ref st1 = Some xs \<and> ''www.base'' \<in> set xs"
    using assms(1,3) a
    by (auto simp: addSubdomain_coherent [OF assms(1,2)] www_base_facts tracked_def
        doc_get_domains_update split: if_splits)
  have z: "zone st1 = zone st" and ch: "changes st1 = changes st"
    using addSubdomain_zone [of ref "JString ''www.base''" st] by (simp_all add: a)
  have old: "getRecordsByType t (JString ''www.base'') st1 =
               Inr (zone_getRecords ''www.base.u-tokyo.app.'' (Some (toUpperCase ty)) st1)"
    by (simp add: getRecordsByType_def assms(4) DOMAIN_def)
  have new: "createRecord t (JString ''www.base'') (JString ''1.2.3.4'') = Inr ?new"
    by (simp add: createRecord_def assms(4) www_base_facts zone_record_def DOMAIN_def
        DEFAULT_TTL_def)
  have upd: "updateRecord ref t (JString ''www.base'') (JString ''1.2.3.4'') st =
          (Inr (), zone_createChange
             \<lparr>add = [?new],
               delete = zone_getRecords ''www.base.u-tokyo.app.'' (Some (toUpperCase ty)) st1\<rparr> st1)"
    by (simp add: updateRecord_def a old new)
  have q: "getRecordsByType t (JString ''www.base'')
             (snd (updateRecord ref t (JString ''www.base'') (JString ''1.2.3.4'') st)) = Inr [?new]"
    by (simp add: upd getRecordsByType_def assms(4) DOMAIN_def zone_getRecords_after_change)
  have tr': "\<exists>xs. tracked ref (snd (updateRecord ref t (JString ''www.base'') (JString ''1.2.3.4'') st))
                  = Some xs \<and> ''www.base'' \<in> set xs"
    using tr by (simp add: upd zone_createChange_def tracked_def doc_get_def)
  have c: "changes (snd (updateRecord ref t (JString ''www.base'') (JString ''1.2.3.4'') st)) =
           changes st @ [\<lparr>add = [?new],
             delete = filter (\<lambda>r. dns_record.name r = ''www.base.u-tokyo.app.''
                                \<and> dns_record.type r = toUpperCase ty) (zone st)\<rparr>]"
    by (simp add: upd zone_createChange_def ch zone_getRecords_def z)
  show ?thesis using q tr' c by (simp add: upd)
qed

theorem updateRecord_www_base_witness:
  "doc_get ''tenant'' example_leaf_state = Some example_leaf_doc
   \<and> coherent ''tenant'' example_leaf_state
   \<and> ''base'' \<in> set (subdomains example_leaf_doc)
   \<and> validateType (JString ''a'') = Inr ''a''
   \<and> fst (updateRecord ''tenant'' (JString ''a'') (JString ''www.base'') (JString ''1.2.3.4'')
            example_leaf_state) = Inr ()
   \<and> getRecordsByType (JString ''a'') (JString ''www.base'')
        (snd (updateRecord ''tenant'' (JString ''a'') (JString ''www.base'') (JString ''1.2.3.4'')
                example_leaf_state)) = Inr [example_record]
   \<and> changes (snd (updateRecord ''tenant'' (JString ''a'') (JString ''www.base'')
                      (JString ''1.2.3.4'') example_leaf_state)) =
       [\<lparr>add = [example_record], delete = [example_record]\<rparr>]"
proof -
  have b: "''base'' \<in> set (subdomains example_leaf_doc)" by (simp add: example_leaf_doc_def)
  have v: "validateType (JString ''a'') = Inr ''a''" by code_simp
  have u: "toUpperCase ''a'' = ''A''" by code_simp
  have z: "zone example_leaf_state = [example_record]" "changes example_leaf_state = []"
    by (simp_all add: example_leaf_state_def)
  show ?thesis
    using updateRecord_www_base [OF example_leaf_doc_get example_leaf_coherent b v]
      example_leaf_doc_get example_leaf_coherent b v
    by (simp add: u z example_record_def)
qed

section \<open>Zone Reconciler: deleting a record\<close>

lemma deleteRecord_bare:
  assumes "CHR ''.'' \<notin> set (or_empty v)"
  shows "domains (snd (deleteRecord ref t v st)) = domains st
       \<and> writes (snd (deleteRecord ref t v st)) = writes st
       \<and> pending (snd (deleteRecord ref t v st)) = pending st"
proof -
  have l: "length (split (CHR ''.'') (toLowerCase (or_empty v))) < 2"
    using assms by (simp add: length_split toLowerCase_dot)
  show ?thesis
    using l
    by (auto simp: deleteRecord_def assertSubdomain_def getAllSubdomains_def Let_def
        zone_deleteRecords_def zone_createChange_def
        split: option.splits sum.splits prod.splits if_splits)
qed

text \<open>
  Claim C4. For an owned leaf name \<open>deleteRecord(type, name)\<close> is to delete every
  provider record of that type under the leaf and, when no record remains under the
  leaf's qualified name, to remove the leaf from the tenant's tracked set. The code
  does not, at two inputs on the tenant that tracks \<open>base\<close> and \<open>www.base\<close> and has the
  one record \<open>www.base A 1.2.3.4\<close>.

  At \<open>deleteRecord("a", "WWW.base")\<close> the name is owned (\<open>assertSubdomain\<close> returns
  \<open>www.base\<close>) and the call succeeds, yet the zone still holds the record: the old
  records are looked up under the name as it was spelled, while \<open>createRecord\<close> stored
  them under the lower-case name. Nothing is left running and the leaf stays tracked.

  At \<open>deleteRecord("a", "www.base")\<close> the record is deleted and no record remains, yet
  when the call returns the tracked set still holds \<open>www.base\<close>: the removal was
  started without \<open>await\<close> and is still running. Only once it has finished is the leaf
  gone.
\<close>

theorem deleteRecord_leaf_not_removed:
  "fst (assertSubdomain ''tenant'' (JString ''WWW.base'') example_leaf_state) = Inr ''www.base''
   \<and> fst (deleteRecord ''tenant'' (JString ''a'') (JString ''WWW.base'') example_leaf_state)
       = Inr ()
   \<and> zone (snd (deleteRecord ''tenant'' (JString ''a'') (JString ''WWW.base'')
                   example_leaf_state)) = [example_record]
   \<and> getRecordsByType (JString ''a'') (JString ''www.base'')
        (snd (deleteRecord ''tenant'' (JString ''a'') (JString ''WWW.base'') example_leaf_state))
       = Inr [example_record]
   \<and> pending (snd (deleteRecord ''tenant'' (JString ''a'') (JString ''WWW.base'')
                      example_leaf_state)) = []
   \<and> tracked ''tenant''
        (settle (snd (deleteRecord ''tenant'' (JString ''a'') (JString ''WWW.base'')
                        example_leaf_state)))
       = Some [''base'', ''www.base'']
   \<and> fst (deleteRecord ''tenant'' (JString ''a'') (JString ''www.base'') example_leaf_state)
       = Inr ()
   \<and> getRecords ''www.base''
        (snd (deleteRecord ''tenant'' (JString ''a'') (JString ''www.base'') example_leaf_state))
       = []
   \<and> tracked ''tenant''
        (snd (deleteRecord ''tenant'' (JString ''a'') (JString ''www.base'') example_leaf_state))
       = Some [''base'', ''www.base'']
   \<and> pending (snd (deleteRecord ''tenant'' (JString ''a'') (JString ''www.base'')
                      example_leaf_state)) = [(''tenant'', JString ''www.base'')]
   \<and> tracked ''tenant''
        (settle (snd (deleteRecord ''tenant'' (JString ''a'') (JString ''www.base'')
                        example_leaf_state)))
       = Some [''base'']"
  by code_simp

end
